theory Spec2Isabelle
  imports Complex_Main
begin

section \<open>CreditGuard research logger: \<^verbatim>\<open>src/utils/logger.py\<close>\<close>

text \<open>
  The class \<^verbatim>\<open>ResearchLogger\<close> appends one CSV row per credit decision
  (\<^verbatim>\<open>log_decision\<close>) and later reads the whole file back to compute summary
  statistics (\<^verbatim>\<open>get_summary_stats\<close>). The embedding keeps the two sides apart the
  way the file does: the recorder turns typed values into text cells, the aggregator
  only ever sees text cells.

  Conventions of the embedding:
  \<^item> Python \<^verbatim>\<open>int\<close> is \<^typ>\<open>int\<close>; \<^verbatim>\<open>str(i)\<close> and \<^verbatim>\<open>int(s)\<close> are written out
    (\<open>str_int\<close>, \<open>py_int\<close>). The interpreter's limit on the number of digits of
    such a conversion is not modelled.
  \<^item> A Python \<^verbatim>\<open>float\<close> is represented by the rational number it denotes, and float
    arithmetic by exact arithmetic: rounding, infinities, NaN and \<^verbatim>\<open>OverflowError\<close> are
    outside the model. The two text conversions of floats are parameters of the
    functions that use them: \<open>fstr\<close> is \<^verbatim>\<open>str(x)\<close> as \<^verbatim>\<open>csv.writer\<close> applies it,
    \<open>fparse\<close> is \<^verbatim>\<open>float(s)\<close>, with \<open>None\<close> for \<^verbatim>\<open>ValueError\<close>.
  \<^item> A CSV file is the list of its rows, a row the list of its cells (what
    \<^verbatim>\<open>csv.writer\<close> is given and \<^verbatim>\<open>csv.reader\<close> gives back); quoting and line ends
    are the \<^verbatim>\<open>csv\<close> module's business. The file system maps a path to the file
    stored there; directories and I/O failures are not modelled.
  \<^item> An exception is a value \<open>Inl e\<close> of the result; a returned dictionary is \<open>Inr\<close>.
\<close>

subsection \<open>Decimal text of integers: \<^verbatim>\<open>str(i)\<close> and \<^verbatim>\<open>int(s)\<close>\<close>

definition digit_char :: "nat \<Rightarrow> char" where
  "digit_char d = ''0123456789'' ! d"

definition is_digit :: "char \<Rightarrow> bool" where
  "is_digit c = (c \<in> set ''0123456789'')"

definition digit_val :: "char \<Rightarrow> nat" where
  "digit_val c = of_char c - 48"

text \<open>The ASCII characters that \<^verbatim>\<open>int()\<close> strips as white space.\<close>

definition is_space :: "char \<Rightarrow> bool" where
  "is_space c = (c \<in> set [CHR 0x09, CHR 0x0A, CHR 0x0B, CHR 0x0C, CHR 0x0D,
                            CHR 0x1C, CHR 0x1D, CHR 0x1E, CHR 0x1F, CHR '' ''])"

fun str_nat :: "nat \<Rightarrow> string" where
  "str_nat n = (if n < 10 then [digit_char n] else str_nat (n div 10) @ [digit_char (n mod 10)])"

declare str_nat.simps [simp del]

definition str_int :: "int \<Rightarrow> string" where
  "str_int i = (if i < 0 then CHR ''-'' # str_nat (nat (- i)) else str_nat (nat i))"

definition strip :: "string \<Rightarrow> string" where
  "strip s = rev (dropWhile is_space (rev (dropWhile is_space s)))"

text \<open>
  Digits with single underscores between them (\<^verbatim>\<open>"1_000"\<close>); an underscore is
  accepted only when a digit follows, and \<open>parse_digits\<close> requires a digit first.
\<close>

fun parse_dec :: "nat \<Rightarrow> string \<Rightarrow> nat option" where
  "parse_dec acc [] = Some acc"
| "parse_dec acc (c # cs) =
     (if is_digit c then parse_dec (10 * acc + digit_val c) cs
      else if c = CHR ''_'' then
        (case cs of [] \<Rightarrow> None | d # ds \<Rightarrow> if is_digit d then parse_dec acc cs else None)
      else None)"

definition parse_digits :: "string \<Rightarrow> nat option" where
  "parse_digits s = (case s of [] \<Rightarrow> None | c # cs \<Rightarrow> if is_digit c then parse_dec 0 s else None)"

text \<open>
  \<^verbatim>\<open>int(s)\<close> for a string, base 10: surrounding white space, an optional sign, decimal
  digits. \<open>None\<close> is \<^verbatim>\<open>ValueError\<close>. Decimal digits and white space outside ASCII,
  which Python also accepts, are not recognised here.
\<close>

definition py_int :: "string \<Rightarrow> int option" where
  "py_int s =
     (case strip s of
        [] \<Rightarrow> None
      | c # cs \<Rightarrow>
          if c = CHR ''-'' then map_option (\<lambda>n. - int n) (parse_digits cs)
          else if c = CHR ''+'' then map_option int (parse_digits cs)
          else map_option int (parse_digits (c # cs)))"

subsection \<open>Data model\<close>

datatype py_error = KeyError | TypeError | ValueError | ZeroDivisionError

text \<open>
  Modelled from the spec: \<^verbatim>\<open>src/core/schemas.py\<close> (\<^verbatim>\<open>CreditDecision\<close>,
  \<^verbatim>\<open>ResearchLog\<close> and the types of their fields) is not among the sources. The
  records below follow the DecisionRecord and LogRow of the spec's data model and the
  attribute accesses of \<^verbatim>\<open>logger.py\<close>. A timestamp is known by its
  \<^verbatim>\<open>isoformat()\<close> text and a routing strategy by its \<^verbatim>\<open>.value\<close>, the only things
  the logger asks of them; the final decision is the text \<^verbatim>\<open>csv.writer\<close> writes for it.
  \<^verbatim>\<open>ResearchLog\<close> is taken to store the values it is given unchanged; its fields
  carry the prefix \<open>log_\<close> because several share a name with a field of the decision.
\<close>

datatype datetime = Datetime (isoformat: string)

datatype RoutingStrategy = RoutingStrategy (strategy_value: string)

record AgentResult =
  tokens_used :: int

record MLPrediction =
  confidence_score :: rat
  default_probability :: rat

record FairnessCheck =
  is_triggered :: bool
  decision_changed :: bool

record CreditDecision =
  timestamp :: datetime
  applicant_id :: string
  routing_strategy_used :: RoutingStrategy
  ml_prediction :: "MLPrediction option"
  llm_results :: "AgentResult list"
  total_tokens :: int
  processing_time_ms :: rat
  fairness_check :: "FairnessCheck option"
  decision :: string
  final_risk_score :: rat

record ResearchLog =
  log_timestamp :: datetime
  log_applicant_id :: string
  log_routing_strategy :: RoutingStrategy
  log_ml_confidence_score :: "rat option"
  log_ml_prediction :: "rat option"
  log_total_tokens :: int
  log_prompt_tokens :: int
  log_completion_tokens :: int
  log_latency_ms :: rat
  log_active_key_id :: string
  log_key_switches :: int
  log_is_fairness_triggered :: bool
  log_fairness_decision_changed :: bool
  log_final_decision :: string
  log_risk_score :: rat

text \<open>The values handed to \<^verbatim>\<open>csv.writer.writerow\<close>, and the text it writes for each.\<close>

datatype pyval = PyNone | PyStr string | PyInt int | PyFloat rat | PyBool bool

fun csv_field :: "(rat \<Rightarrow> string) \<Rightarrow> pyval \<Rightarrow> string" where
  "csv_field fstr PyNone = []"
| "csv_field fstr (PyStr s) = s"
| "csv_field fstr (PyInt i) = str_int i"
| "csv_field fstr (PyFloat q) = fstr q"
| "csv_field fstr (PyBool b) = (if b then ''True'' else ''False'')"

fun opt_float :: "rat option \<Rightarrow> pyval" where
  "opt_float None = PyNone"
| "opt_float (Some q) = PyFloat q"

type_synonym csv_file = "string list list"

type_synonym filesystem = "string \<rightharpoonup> csv_file"

record ResearchLogger =
  log_path :: string

subsection \<open>Recorder: \<^verbatim>\<open>__init__\<close>, \<^verbatim>\<open>_init_csv\<close>, \<^verbatim>\<open>log_decision\<close>, \<^verbatim>\<open>_extract_key_id\<close>\<close>

definition headers :: "string list" where
  "headers =
     [''timestamp'', ''applicant_id'', ''routing_strategy'',
      ''ml_confidence_score'', ''ml_prediction'',
      ''total_tokens'', ''prompt_tokens'', ''completion_tokens'',
      ''latency_ms'', ''active_key_id'', ''key_switches'',
      ''is_fairness_triggered'', ''fairness_decision_changed'',
      ''final_decision'', ''risk_score'']"

text \<open>\<^verbatim>\<open>_init_csv\<close>: opening with mode \<^verbatim>\<open>'w'\<close> creates the file; the header is its only row.\<close>

definition init_csv :: "ResearchLogger \<Rightarrow> filesystem \<Rightarrow> filesystem" where
  "init_csv self fs =
     (if fs (log_path self) = None then fs(log_path self \<mapsto> [headers]) else fs)"

text \<open>\<^verbatim>\<open>__init__\<close>: the new logger and the file system it leaves.\<close>

definition init :: "string \<Rightarrow> filesystem \<Rightarrow> ResearchLogger \<times> filesystem" where
  "init path fs = (let self = \<lparr>log_path = path\<rparr> in (self, init_csv self fs))"

definition extract_key_id :: "CreditDecision \<Rightarrow> string" where
  "extract_key_id d = (if llm_results d \<noteq> [] then ''key_used'' else ''ml_only'')"

text \<open>The first half of \<^verbatim>\<open>log_decision\<close>: the \<^verbatim>\<open>ResearchLog\<close> entry of a decision.\<close>

definition log_entry :: "CreditDecision \<Rightarrow> int \<Rightarrow> ResearchLog" where
  "log_entry d key_switches =
     (let total_tokens' = total_tokens d;
          prompt_tokens = (if llm_results d \<noteq> []
                           then sum_list (map tokens_used (llm_results d)) else 0);
          completion_tokens = total_tokens' - prompt_tokens;
          fairness_triggered = (case fairness_check d of
                                  Some fc \<Rightarrow> is_triggered fc | None \<Rightarrow> False);
          fairness_changed = (case fairness_check d of
                                Some fc \<Rightarrow> decision_changed fc | None \<Rightarrow> False);
          ml_confidence = (case ml_prediction d of
                             Some ml \<Rightarrow> Some (confidence_score ml) | None \<Rightarrow> None);
          ml_prob = (case ml_prediction d of
                       Some ml \<Rightarrow> Some (default_probability ml) | None \<Rightarrow> None)
      in \<lparr>log_timestamp = timestamp d,
          log_applicant_id = applicant_id d,
          log_routing_strategy = routing_strategy_used d,
          log_ml_confidence_score = ml_confidence,
          log_ml_prediction = ml_prob,
          log_total_tokens = total_tokens',
          log_prompt_tokens = prompt_tokens,
          log_completion_tokens = completion_tokens,
          log_latency_ms = processing_time_ms d,
          log_active_key_id = extract_key_id d,
          log_key_switches = key_switches,
          log_is_fairness_triggered = fairness_triggered,
          log_fairness_decision_changed = fairness_changed,
          log_final_decision = decision d,
          log_risk_score = final_risk_score d\<rparr>)"

text \<open>The list given to \<^verbatim>\<open>writer.writerow\<close>, in the order of the source.\<close>

definition row_values :: "ResearchLog \<Rightarrow> pyval list" where
  "row_values e =
     [PyStr (isoformat (log_timestamp e)),
      PyStr (log_applicant_id e),
      PyStr (strategy_value (log_routing_strategy e)),
      opt_float (log_ml_confidence_score e),
      opt_float (log_ml_prediction e),
      PyInt (log_total_tokens e),
      PyInt (log_prompt_tokens e),
      PyInt (log_completion_tokens e),
      PyFloat (log_latency_ms e),
      PyStr (log_active_key_id e),
      PyInt (log_key_switches e),
      PyBool (log_is_fairness_triggered e),
      PyBool (log_fairness_decision_changed e),
      PyStr (log_final_decision e),
      PyFloat (log_risk_score e)]"

definition writerow :: "(rat \<Rightarrow> string) \<Rightarrow> pyval list \<Rightarrow> csv_file \<Rightarrow> csv_file" where
  "writerow fstr vals rows = rows @ [map (csv_field fstr) vals]"

text \<open>Opening with mode \<^verbatim>\<open>'a'\<close>: the rows already there, none when the file is new.\<close>

definition open_append :: "filesystem \<Rightarrow> string \<Rightarrow> csv_file" where
  "open_append fs path = (case fs path of None \<Rightarrow> [] | Some rows \<Rightarrow> rows)"

definition log_decision ::
  "(rat \<Rightarrow> string) \<Rightarrow> ResearchLogger \<Rightarrow> CreditDecision \<Rightarrow> int \<Rightarrow> filesystem \<Rightarrow> filesystem" where
  "log_decision fstr self d key_switches fs =
     (let e = log_entry d key_switches
      in fs(log_path self \<mapsto> writerow fstr (row_values e) (open_append fs (log_path self))))"

subsection \<open>Aggregator: \<^verbatim>\<open>get_summary_stats\<close>\<close>

text \<open>
  \<^verbatim>\<open>csv.DictReader\<close>: the first row names the fields; blank rows are skipped; a row
  becomes \<^verbatim>\<open>dict(zip(fieldnames, row))\<close>, a short row is filled with \<^verbatim>\<open>None\<close>. The
  dictionary is the list of its bindings in the order they are made; a later binding
  of a key replaces an earlier one, so a lookup reads the list from its end. The cells
  of an over-long row go under the key \<^verbatim>\<open>None\<close>, which the logger never looks up.
\<close>

type_synonym csv_dict = "(string \<times> string option) list"

definition DictReader_row :: "string list \<Rightarrow> string list \<Rightarrow> csv_dict" where
  "DictReader_row fieldnames row =
     zip fieldnames (map Some row @ replicate (length fieldnames - length row) None)"

definition DictReader :: "csv_file \<Rightarrow> csv_dict list" where
  "DictReader file =
     (case file of
        [] \<Rightarrow> []
      | fieldnames # rest \<Rightarrow> map (DictReader_row fieldnames) (filter (\<lambda>row. row \<noteq> []) rest))"

text \<open>\<^verbatim>\<open>r[key]\<close>.\<close>

definition getitem :: "csv_dict \<Rightarrow> string \<Rightarrow> py_error + string option" where
  "getitem r key = (case map_of (rev r) key of None \<Rightarrow> Inl KeyError | Some v \<Rightarrow> Inr v)"

text \<open>Sequencing: an exception of the first computation ends the whole.\<close>

definition and_then :: "py_error + 'a \<Rightarrow> ('a \<Rightarrow> py_error + 'b) \<Rightarrow> py_error + 'b" where
  "and_then m f = (case m of Inl e \<Rightarrow> Inl e | Inr v \<Rightarrow> f v)"

text \<open>\<^verbatim>\<open>int(v)\<close> and \<^verbatim>\<open>float(v)\<close> of a cell: \<^verbatim>\<open>None\<close> is a \<^verbatim>\<open>TypeError\<close>.\<close>

definition int_of :: "string option \<Rightarrow> py_error + int" where
  "int_of v =
     (case v of
        None \<Rightarrow> Inl TypeError
      | Some s \<Rightarrow> (case py_int s of None \<Rightarrow> Inl ValueError | Some i \<Rightarrow> Inr i))"

definition float_of :: "(string \<Rightarrow> rat option) \<Rightarrow> string option \<Rightarrow> py_error + rat" where
  "float_of fparse v =
     (case v of
        None \<Rightarrow> Inl TypeError
      | Some s \<Rightarrow> (case fparse s of None \<Rightarrow> Inl ValueError | Some q \<Rightarrow> Inr q))"

text \<open>\<^verbatim>\<open>a / b\<close>.\<close>

definition truediv :: "rat \<Rightarrow> rat \<Rightarrow> py_error + rat" where
  "truediv a b = (if b = 0 then Inl ZeroDivisionError else Inr (a / b))"

text \<open>\<^verbatim>\<open>sum(f(r) for r in rows)\<close>, from the accumulator \<open>acc\<close> (0 in the source).\<close>

fun sum_gen :: "('a \<Rightarrow> py_error + 'n::monoid_add) \<Rightarrow> 'n \<Rightarrow> 'a list \<Rightarrow> py_error + 'n" where
  "sum_gen f acc [] = Inr acc"
| "sum_gen f acc (r # rs) = and_then (f r) (\<lambda>v. sum_gen f (acc + v) rs)"

text \<open>\<^verbatim>\<open>sum(1 for r in rows if c(r))\<close>.\<close>

fun count_if :: "('a \<Rightarrow> py_error + bool) \<Rightarrow> int \<Rightarrow> 'a list \<Rightarrow> py_error + int" where
  "count_if c acc [] = Inr acc"
| "count_if c acc (r # rs) = and_then (c r) (\<lambda>b. count_if c (if b then acc + 1 else acc) rs)"

text \<open>
  \<^verbatim>\<open>routing_dist\<close>, a dictionary in insertion order: \<^verbatim>\<open>d.get(key, dflt)\<close>,
  \<^verbatim>\<open>d[key] = val\<close>, and the loop over the rows.
\<close>

fun dict_get :: "('k \<times> 'v) list \<Rightarrow> 'k \<Rightarrow> 'v \<Rightarrow> 'v" where
  "dict_get [] key dflt = dflt"
| "dict_get ((k, v) # kvs) key dflt = (if k = key then v else dict_get kvs key dflt)"

fun dict_set :: "('k \<times> 'v) list \<Rightarrow> 'k \<Rightarrow> 'v \<Rightarrow> ('k \<times> 'v) list" where
  "dict_set [] key val = [(key, val)]"
| "dict_set ((k, v) # kvs) key val =
     (if k = key then (k, val) # kvs else (k, v) # dict_set kvs key val)"

fun routing_loop ::
  "(string option \<times> int) list \<Rightarrow> csv_dict list \<Rightarrow> py_error + (string option \<times> int) list" where
  "routing_loop routing_dist [] = Inr routing_dist"
| "routing_loop routing_dist (r # rs) =
     and_then (getitem r ''routing_strategy'')
       (\<lambda>strategy. routing_loop
          (dict_set routing_dist strategy (dict_get routing_dist strategy 0 + 1)) rs)"

text \<open>
  The returned dictionary, its nested keys flattened: \<^verbatim>\<open>token_usage.total\<close> is
  \<open>token_usage_total\<close>, and so on. \<^verbatim>\<open>change_rate\<close> is a float or the integer \<^verbatim>\<open>0\<close>.
\<close>

record SummaryStats =
  total_evaluations :: int
  token_usage_total :: int
  token_usage_average_per_request :: rat
  token_usage_estimated_cost_usd :: rat
  performance_average_latency_ms :: rat
  routing_distribution :: "(string option \<times> int) list"
  fairness_metrics_triggers :: int
  fairness_metrics_decision_changes :: int
  fairness_metrics_change_rate :: pyval
  resilience_total_key_switches :: int
  resilience_switch_rate :: rat

text \<open>\<^verbatim>\<open>{"error": msg}\<close> or the statistics.\<close>

datatype summary = ErrorDict string | StatsDict SummaryStats

text \<open>
  \<^verbatim>\<open>get_summary_stats\<close> from \<^verbatim>\<open>total = len(rows)\<close> on, in the order the source
  evaluates; \<^verbatim>\<open>0.0000001\<close> is the rational \<open>1 / 10000000\<close>.
\<close>

definition compute_stats :: "(string \<Rightarrow> rat option) \<Rightarrow> csv_dict list \<Rightarrow> py_error + summary" where
  "compute_stats fparse rows =
     (let total = int (length rows) in
      and_then (sum_gen (\<lambda>r. and_then (getitem r ''total_tokens'') int_of) 0 rows)
        (\<lambda>total_tokens.
      and_then (truediv (of_int total_tokens) (of_int total))
        (\<lambda>avg_tokens.
      and_then (sum_gen (\<lambda>r. and_then (getitem r ''latency_ms'') (float_of fparse)) 0 rows)
        (\<lambda>latency_sum.
      and_then (truediv latency_sum (of_int total))
        (\<lambda>avg_latency.
      and_then (routing_loop [] rows)
        (\<lambda>routing_dist.
      and_then (count_if (\<lambda>r. and_then (getitem r ''is_fairness_triggered'')
                                   (\<lambda>v. Inr (v = Some ''True''))) 0 rows)
        (\<lambda>fairness_triggers.
      and_then (count_if (\<lambda>r. and_then (getitem r ''fairness_decision_changed'')
                                   (\<lambda>v. Inr (v = Some ''True''))) 0 rows)
        (\<lambda>fairness_changes.
      and_then (sum_gen (\<lambda>r. and_then (getitem r ''key_switches'') int_of) 0 rows)
        (\<lambda>total_switches.
      and_then (if fairness_triggers > 0
                then and_then (truediv (of_int fairness_changes) (of_int fairness_triggers))
                       (\<lambda>q. Inr (PyFloat q))
                else Inr (PyInt 0))
        (\<lambda>change_rate.
      and_then (truediv (of_int total_switches) (of_int total))
        (\<lambda>switch_rate.
      Inr (StatsDict
        \<lparr>total_evaluations = total,
         token_usage_total = total_tokens,
         token_usage_average_per_request = avg_tokens,
         token_usage_estimated_cost_usd = of_int total_tokens * (1 / 10000000),
         performance_average_latency_ms = avg_latency,
         routing_distribution = routing_dist,
         fairness_metrics_triggers = fairness_triggers,
         fairness_metrics_decision_changes = fairness_changes,
         fairness_metrics_change_rate = change_rate,
         resilience_total_key_switches = total_switches,
         resilience_switch_rate = switch_rate\<rparr>))))))))))))"

definition get_summary_stats ::
  "(string \<Rightarrow> rat option) \<Rightarrow> ResearchLogger \<Rightarrow> filesystem \<Rightarrow> py_error + summary" where
  "get_summary_stats fparse self fs =
     (case fs (log_path self) of
        None \<Rightarrow> Inr (ErrorDict ''No logs found'')
      | Some file \<Rightarrow>
          (let rows = DictReader file in
           if rows = [] then Inr (ErrorDict ''Log file is empty'')
           else compute_stats fparse rows))"

subsection \<open>Notions used to state the properties\<close>

text \<open>The row \<^verbatim>\<open>log_decision\<close> writes for a decision, and what \<^verbatim>\<open>DictReader\<close> reads back.\<close>

definition written_row :: "(rat \<Rightarrow> string) \<Rightarrow> CreditDecision \<times> int \<Rightarrow> string list" where
  "written_row fstr call = map (csv_field fstr) (row_values (log_entry (fst call) (snd call)))"

definition read_back :: "(rat \<Rightarrow> string) \<Rightarrow> CreditDecision \<times> int \<Rightarrow> csv_dict" where
  "read_back fstr call = DictReader_row headers (written_row fstr call)"

text \<open>A sequence of \<^verbatim>\<open>log_decision\<close> calls on one logger, in order.\<close>

fun log_decisions ::
  "(rat \<Rightarrow> string) \<Rightarrow> ResearchLogger \<Rightarrow> (CreditDecision \<times> int) list \<Rightarrow> filesystem \<Rightarrow> filesystem" where
  "log_decisions fstr self [] fs = fs"
| "log_decisions fstr self (call # calls) fs =
     log_decisions fstr self calls (log_decision fstr self (fst call) (snd call) fs)"

text \<open>
  A small instance of the float text conversions, for concrete examples: it agrees
  with Python on the three floats it knows (\<^verbatim>\<open>str(1.5) == '1.5'\<close>, \<^verbatim>\<open>float('1.5') == 1.5\<close>).
\<close>

definition sample_fstr :: "rat \<Rightarrow> string" where
  "sample_fstr q = (if q = 3 / 2 then ''1.5'' else if q = 1 / 4 then ''0.25'' else ''0.0'')"

definition sample_fparse :: "string \<Rightarrow> rat option" where
  "sample_fparse s =
     (if s = ''1.5'' then Some (3 / 2) else if s = ''0.25'' then Some (1 / 4)
      else if s = ''0.0'' then Some 0 else None)"

text \<open>A decision for the examples; its fields are varied by record update.\<close>

definition sample_decision :: CreditDecision where
  "sample_decision =
     \<lparr>timestamp = Datetime ''2024-05-01T12:00:00'', applicant_id = ''APP-1'',
      routing_strategy_used = RoutingStrategy ''hybrid'', ml_prediction = None,
      llm_results = [\<lparr>tokens_used = 60\<rparr>, \<lparr>tokens_used = 10\<rparr>], total_tokens = 100,
      processing_time_ms = 3 / 2,
      fairness_check = Some \<lparr>is_triggered = True, decision_changed = False\<rparr>,
      decision = ''approve'', final_risk_score = 1 / 4\<rparr>"

definition sample_logger :: ResearchLogger where
  "sample_logger = \<lparr>log_path = ''logs/research_logs.csv''\<rparr>"

text \<open>Examples: a file system with no file, and three calls of \<^verbatim>\<open>log_decision\<close>.\<close>

definition no_files :: filesystem where
  "no_files = Map.empty"

definition changed_untriggered :: CreditDecision where
  "changed_untriggered =
     sample_decision\<lparr>fairness_check := Some \<lparr>is_triggered = False, decision_changed = True\<rparr>\<rparr>"

definition sample_calls :: "(CreditDecision \<times> int) list" where
  "sample_calls = [(sample_decision, 2), (changed_untriggered, 0), (changed_untriggered, 0)]"

section \<open>Properties\<close>

lemma headers_length: "length headers = 15"
  by (simp add: headers_def)

lemma lt10:
  assumes "(d::nat) < 10"
  shows "d = 0 \<or> d = 1 \<or> d = 2 \<or> d = 3 \<or> d = 4 \<or> d = 5 \<or> d = 6 \<or> d = 7 \<or> d = 8 \<or> d = 9"
  using assms by arith

lemma digit_char_props:
  assumes "d < 10"
  shows "is_digit (digit_char d)" and "digit_val (digit_char d) = d"
  using lt10 [OF assms]
  by (elim disjE; simp add: is_digit_def digit_char_def digit_val_def)+

lemma is_digit_not_space: "is_digit c \<Longrightarrow> \<not> is_space c"
  by (auto simp: is_digit_def is_space_def)

lemma is_digit_not_sign: "is_digit c \<Longrightarrow> c \<noteq> CHR ''-'' \<and> c \<noteq> CHR ''+''"
  by (auto simp: is_digit_def)

lemma str_nat_digits: "list_all is_digit (str_nat n)"
proof (induction n rule: str_nat.induct)
  case (1 n)
  show ?case
  proof (cases "n < 10")
    case True
    then show ?thesis by (simp add: str_nat.simps [of n] digit_char_props)
  next
    case False
    then show ?thesis using 1 by (simp add: str_nat.simps [of n] digit_char_props)
  qed
qed

lemma str_nat_nonempty: "str_nat n \<noteq> []"
  by (simp add: str_nat.simps [of n])

lemma parse_dec_snoc:
  "list_all is_digit ds \<Longrightarrow> is_digit c \<Longrightarrow>
   parse_dec acc (ds @ [c]) = map_option (\<lambda>v. 10 * v + digit_val c) (parse_dec acc ds)"
  by (induction ds arbitrary: acc) simp_all

lemma parse_dec_str_nat: "parse_dec 0 (str_nat n) = Some n"
proof (induction n rule: str_nat.induct)
  case (1 n)
  show ?case
  proof (cases "n < 10")
    case True
    then show ?thesis by (simp add: str_nat.simps [of n] digit_char_props)
  next
    case False
    then have "parse_dec 0 (str_nat (n div 10)) = Some (n div 10)" using 1 by simp
    then show ?thesis using False
      by (simp add: str_nat.simps [of n] parse_dec_snoc str_nat_digits digit_char_props)
  qed
qed

lemma parse_digits_str_nat: "parse_digits (str_nat n) = Some n"
proof -
  obtain c cs where s: "str_nat n = c # cs"
    using str_nat_nonempty [of n] by (cases "str_nat n") auto
  have "is_digit c" using str_nat_digits [of n] s by simp
  then show ?thesis using parse_dec_str_nat [of n] s by (simp add: parse_digits_def)
qed

lemma strip_no_space:
  assumes "s \<noteq> []" and "\<not> is_space (hd s)" and "\<not> is_space (last s)"
  shows "strip s = s"
proof -
  have a: "dropWhile is_space s = s" using assms by (cases s) auto
  have "rev s \<noteq> []" and "\<not> is_space (hd (rev s))"
    using assms by (simp_all add: hd_rev)
  then have "dropWhile is_space (rev s) = rev s" by (cases "rev s") auto
  then show ?thesis using a by (simp add: strip_def)
qed

lemma str_nat_last_digit: "is_digit (last (str_nat n))"
  using str_nat_digits [of n] str_nat_nonempty [of n]
  by (simp add: list_all_iff)

lemma str_nat_hd_digit: "is_digit (hd (str_nat n))"
  using str_nat_digits [of n] str_nat_nonempty [of n]
  by (cases "str_nat n") simp_all

lemma strip_str_int: "strip (str_int i) = str_int i"
proof (rule strip_no_space)
  show "str_int i \<noteq> []" by (simp add: str_int_def str_nat_nonempty)
  show "\<not> is_space (hd (str_int i))"
    using str_nat_hd_digit [of "nat i"]
    by (auto simp: str_int_def is_space_def dest: is_digit_not_space)
  show "\<not> is_space (last (str_int i))"
    using str_nat_last_digit [of "nat i"] str_nat_last_digit [of "nat (- i)"]
    by (auto simp: str_int_def str_nat_nonempty dest: is_digit_not_space)
qed

text \<open>Reading back the text of an integer gives the integer.\<close>

lemma py_int_str_int: "py_int (str_int i) = Some i"
proof (cases "i < 0")
  case True
  then show ?thesis
    using strip_str_int [of i]
    by (simp add: py_int_def str_int_def parse_digits_str_nat)
next
  case False
  obtain c cs where s: "str_nat (nat i) = c # cs"
    using str_nat_nonempty [of "nat i"] by (cases "str_nat (nat i)") auto
  have "is_digit c" using str_nat_hd_digit [of "nat i"] s by simp
  then have "c \<noteq> CHR ''-''" and "c \<noteq> CHR ''+''" using is_digit_not_sign by auto
  moreover have "parse_digits (c # cs) = Some (nat i)"
    using parse_digits_str_nat [of "nat i"] s by simp
  ultimately show ?thesis
    using strip_str_int [of i] False s by (simp add: py_int_def str_int_def)
qed

lemma int_of_str_int: "int_of (Some (str_int i)) = Inr i"
  by (simp add: int_of_def py_int_str_int)

lemma and_then_simps [simp]:
  "and_then (Inl e) f = Inl e"
  "and_then (Inr v) f = f v"
  by (simp_all add: and_then_def)

lemma written_row_length: "length (written_row fstr c) = 15"
  by (simp add: written_row_def row_values_def)

lemma read_back_cells:
  "getitem (read_back fstr c) ''timestamp'' = Inr (Some (isoformat (timestamp (fst c))))"
  "getitem (read_back fstr c) ''routing_strategy'' =
     Inr (Some (strategy_value (routing_strategy_used (fst c))))"
  "getitem (read_back fstr c) ''ml_confidence_score'' =
     Inr (Some (csv_field fstr (opt_float (log_ml_confidence_score (log_entry (fst c) (snd c))))))"
  "getitem (read_back fstr c) ''ml_prediction'' =
     Inr (Some (csv_field fstr (opt_float (log_ml_prediction (log_entry (fst c) (snd c))))))"
  "getitem (read_back fstr c) ''total_tokens'' = Inr (Some (str_int (total_tokens (fst c))))"
  "getitem (read_back fstr c) ''prompt_tokens'' =
     Inr (Some (str_int (log_prompt_tokens (log_entry (fst c) (snd c)))))"
  "getitem (read_back fstr c) ''completion_tokens'' =
     Inr (Some (str_int (log_completion_tokens (log_entry (fst c) (snd c)))))"
  "getitem (read_back fstr c) ''latency_ms'' = Inr (Some (fstr (processing_time_ms (fst c))))"
  "getitem (read_back fstr c) ''active_key_id'' = Inr (Some (extract_key_id (fst c)))"
  "getitem (read_back fstr c) ''key_switches'' = Inr (Some (str_int (snd c)))"
  "getitem (read_back fstr c) ''is_fairness_triggered'' =
     Inr (Some (if log_is_fairness_triggered (log_entry (fst c) (snd c)) then ''True'' else ''False''))"
  "getitem (read_back fstr c) ''fairness_decision_changed'' =
     Inr (Some (if log_fairness_decision_changed (log_entry (fst c) (snd c)) then ''True'' else ''False''))"
  by (simp_all add: read_back_def DictReader_row_def written_row_def row_values_def
        headers_def getitem_def log_entry_def Let_def)

lemma DictReader_recorded:
  "DictReader (hdr # map (written_row fstr) calls) = map (DictReader_row hdr \<circ> written_row fstr) calls"
proof -
  have "filter (\<lambda>row. row \<noteq> []) (map (written_row fstr) calls) = map (written_row fstr) calls"
    by (rule filter_True) (auto simp: written_row_def row_values_def)
  then show ?thesis by (simp add: DictReader_def)
qed

lemma DictReader_headers_recorded:
  "DictReader (headers # map (written_row fstr) calls) = map (read_back fstr) calls"
  by (simp add: DictReader_recorded read_back_def comp_def)

lemma sum_gen_Inr:
  fixes acc :: "'n::monoid_add"
  assumes "\<forall>x \<in> set xs. f (h x) = Inr (g x)"
  shows "sum_gen f acc (map h xs) = Inr (acc + sum_list (map g xs))"
  using assms by (induction xs arbitrary: acc) (simp_all add: add.assoc)

lemma count_if_Inr:
  assumes "\<forall>x \<in> set xs. c (h x) = Inr (p x)"
  shows "count_if c acc (map h xs) = Inr (acc + int (length (filter p xs)))"
  using assms by (induction xs arbitrary: acc) simp_all

lemma count_if_result:
  "count_if c acc rows = Inr n \<Longrightarrow> n = acc + int (length (filter (\<lambda>r. c r = Inr True) rows))"
proof (induction rows arbitrary: acc)
  case Nil
  then show ?case by simp
next
  case (Cons r rows)
  show ?case
  proof (cases "c r")
    case (Inl e)
    then show ?thesis using Cons.prems by simp
  next
    case (Inr b)
    then have "count_if c (if b then acc + 1 else acc) rows = Inr n"
      using Cons.prems by simp
    from Cons.IH [OF this] show ?thesis using Inr by (cases b) simp_all
  qed
qed

lemma routing_loop_Inr:
  assumes "\<forall>r \<in> set rows. \<exists>v. getitem r ''routing_strategy'' = Inr v"
  shows "\<exists>rd'. routing_loop rd rows = Inr rd'"
  using assms
proof (induction rows arbitrary: rd)
  case Nil
  then show ?case by simp
next
  case (Cons r rows)
  then obtain v where "getitem r ''routing_strategy'' = Inr v" by auto
  then show ?case using Cons by simp
qed

lemma getitem_no_zde: "getitem r k \<noteq> Inl ZeroDivisionError"
  by (simp add: getitem_def split: option.splits)

lemma int_of_no_zde: "int_of v \<noteq> Inl ZeroDivisionError"
  by (simp add: int_of_def split: option.splits)

lemma float_of_no_zde: "float_of fparse v \<noteq> Inl ZeroDivisionError"
  by (simp add: float_of_def split: option.splits)

lemma and_then_no_zde:
  assumes "m \<noteq> Inl ZeroDivisionError" and "\<And>v. f v \<noteq> Inl ZeroDivisionError"
  shows "and_then m f \<noteq> Inl ZeroDivisionError"
  using assms by (cases m) simp_all

lemma sum_gen_no_zde:
  assumes "\<And>r. f r \<noteq> Inl ZeroDivisionError"
  shows "sum_gen f acc rows \<noteq> Inl ZeroDivisionError"
  by (induction rows arbitrary: acc) (simp_all add: assms and_then_no_zde)

lemma count_if_no_zde:
  assumes "\<And>r. c r \<noteq> Inl ZeroDivisionError"
  shows "count_if c acc rows \<noteq> Inl ZeroDivisionError"
  by (induction rows arbitrary: acc) (simp_all add: assms and_then_no_zde)

lemma routing_loop_no_zde: "routing_loop rd rows \<noteq> Inl ZeroDivisionError"
  by (induction rows arbitrary: rd) (simp_all add: getitem_no_zde and_then_no_zde)

lemma truediv_no_zde: "b \<noteq> 0 \<Longrightarrow> truediv a b \<noteq> Inl ZeroDivisionError"
  by (simp add: truediv_def)

lemma compute_stats_no_zde:
  assumes "rows \<noteq> []"
  shows "compute_stats fparse rows \<noteq> Inl ZeroDivisionError"
proof -
  have len: "(of_int (int (length rows)) :: rat) \<noteq> 0" using assms by simp
  show ?thesis
    unfolding compute_stats_def Let_def
    by (intro and_then_no_zde sum_gen_no_zde count_if_no_zde routing_loop_no_zde
          truediv_no_zde len getitem_no_zde int_of_no_zde float_of_no_zde)
       (simp_all add: truediv_def)
qed

lemma and_then_InrE:
  assumes "and_then m f = Inr y"
  obtains v where "m = Inr v" and "f v = Inr y"
  using assms by (cases m) simp_all

lemma flag_test_True:
  "(and_then (getitem r k) (\<lambda>v. Inr (v = Some ''True'')) = Inr True)
     = (getitem r k = Inr (Some ''True''))"
  by (cases "getitem r k") simp_all

text \<open>What any statistics record says about fairness, whatever the store.\<close>

lemma compute_stats_fairness:
  assumes "compute_stats fparse rows = Inr (StatsDict st)"
  shows "fairness_metrics_triggers st =
           int (length (filter (\<lambda>r. getitem r ''is_fairness_triggered'' = Inr (Some ''True'')) rows))"
    and "fairness_metrics_decision_changes st =
           int (length (filter (\<lambda>r. getitem r ''fairness_decision_changed'' = Inr (Some ''True'')) rows))"
    and "fairness_metrics_change_rate st =
           (if 0 < fairness_metrics_triggers st
            then PyFloat (of_int (fairness_metrics_decision_changes st)
                          / of_int (fairness_metrics_triggers st))
            else PyInt 0)"
    and "total_evaluations st = int (length rows)"
proof -
  from assms obtain tt av ls al rd ft fc ts cr sr where
    ft: "count_if (\<lambda>r. and_then (getitem r ''is_fairness_triggered'')
                          (\<lambda>v. Inr (v = Some ''True''))) 0 rows = Inr ft" and
    fc: "count_if (\<lambda>r. and_then (getitem r ''fairness_decision_changed'')
                          (\<lambda>v. Inr (v = Some ''True''))) 0 rows = Inr fc" and
    cr: "(if ft > 0 then and_then (truediv (of_int fc) (of_int ft)) (\<lambda>q. Inr (PyFloat q))
          else Inr (PyInt 0)) = Inr cr" and
    st: "st = \<lparr>total_evaluations = int (length rows),
         token_usage_total = tt,
         token_usage_average_per_request = av,
         token_usage_estimated_cost_usd = of_int tt * (1 / 10000000),
         performance_average_latency_ms = al,
         routing_distribution = rd,
         fairness_metrics_triggers = ft,
         fairness_metrics_decision_changes = fc,
         fairness_metrics_change_rate = cr,
         resilience_total_key_switches = ts,
         resilience_switch_rate = sr\<rparr>"
    unfolding compute_stats_def Let_def
    by (elim and_then_InrE) auto
  show "fairness_metrics_triggers st =
           int (length (filter (\<lambda>r. getitem r ''is_fairness_triggered'' = Inr (Some ''True'')) rows))"
    using count_if_result [OF ft] st by (simp add: flag_test_True)
  show "fairness_metrics_decision_changes st =
           int (length (filter (\<lambda>r. getitem r ''fairness_decision_changed'' = Inr (Some ''True'')) rows))"
    using count_if_result [OF fc] st by (simp add: flag_test_True)
  show "fairness_metrics_change_rate st =
           (if 0 < fairness_metrics_triggers st
            then PyFloat (of_int (fairness_metrics_decision_changes st)
                          / of_int (fairness_metrics_triggers st))
            else PyInt 0)"
    using cr st by (auto simp: truediv_def split: if_splits)
  show "total_evaluations st = int (length rows)" using st by simp
qed

text \<open>The statistics of a store the recorder wrote.\<close>

lemma compute_stats_recorded:
  assumes ne: "calls \<noteq> []"
    and lat: "\<forall>c \<in> set calls. fparse (fstr (processing_time_ms (fst c))) \<noteq> None"
  shows "\<exists>st. compute_stats fparse (map (read_back fstr) calls) = Inr (StatsDict st)
           \<and> total_evaluations st = int (length calls)
           \<and> token_usage_total st = sum_list (map (\<lambda>c. total_tokens (fst c)) calls)
           \<and> fairness_metrics_triggers st =
               int (length (filter (\<lambda>c. log_is_fairness_triggered (log_entry (fst c) (snd c))) calls))
           \<and> fairness_metrics_decision_changes st =
               int (length (filter (\<lambda>c. log_fairness_decision_changed (log_entry (fst c) (snd c))) calls))
           \<and> resilience_total_key_switches st = sum_list (map snd calls)
           \<and> resilience_switch_rate st =
               of_int (sum_list (map snd calls)) / of_int (int (length calls))"
proof -
  let ?rows = "map (read_back fstr) calls"
  have len: "(of_int (int (length calls)) :: rat) \<noteq> 0" using ne by simp
  have tt: "sum_gen (\<lambda>r. and_then (getitem r ''total_tokens'') int_of) 0 ?rows
              = Inr (0 + sum_list (map (\<lambda>c. total_tokens (fst c)) calls))"
    by (rule sum_gen_Inr) (simp add: read_back_cells int_of_str_int)
  have ks: "sum_gen (\<lambda>r. and_then (getitem r ''key_switches'') int_of) 0 ?rows
              = Inr (0 + sum_list (map snd calls))"
    by (rule sum_gen_Inr) (simp add: read_back_cells int_of_str_int)
  define g where "g c = the (fparse (fstr (processing_time_ms (fst c))))" for c :: "CreditDecision \<times> int"
  have ls: "sum_gen (\<lambda>r. and_then (getitem r ''latency_ms'') (float_of fparse)) 0 ?rows
              = Inr (0 + sum_list (map g calls))"
    by (rule sum_gen_Inr) (use lat in \<open>auto simp: read_back_cells float_of_def g_def\<close>)
  obtain rd where rd: "routing_loop [] ?rows = Inr rd"
    using routing_loop_Inr [of ?rows "[]"] by (auto simp: read_back_cells)
  have ft: "count_if (\<lambda>r. and_then (getitem r ''is_fairness_triggered'')
                          (\<lambda>v. Inr (v = Some ''True''))) 0 ?rows
              = Inr (0 + int (length (filter
                  (\<lambda>c. log_is_fairness_triggered (log_entry (fst c) (snd c))) calls)))"
    by (rule count_if_Inr) (simp add: read_back_cells)
  have fc: "count_if (\<lambda>r. and_then (getitem r ''fairness_decision_changed'')
                          (\<lambda>v. Inr (v = Some ''True''))) 0 ?rows
              = Inr (0 + int (length (filter
                  (\<lambda>c. log_fairness_decision_changed (log_entry (fst c) (snd c))) calls)))"
    by (rule count_if_Inr) (simp add: read_back_cells)
  show ?thesis
    unfolding compute_stats_def Let_def tt ks ls rd ft fc
    using len by (simp add: truediv_def)
qed

lemma open_append_log_decision:
  "open_append (log_decision fstr self d k fs) (log_path self)
     = open_append fs (log_path self) @ [written_row fstr (d, k)]"
  by (simp add: log_decision_def open_append_def writerow_def written_row_def Let_def)

lemma log_decision_store:
  "log_decision fstr self d k fs (log_path self)
     = Some (open_append fs (log_path self) @ [written_row fstr (d, k)])"
  by (simp add: log_decision_def writerow_def written_row_def Let_def)

lemma log_decisions_store:
  "calls \<noteq> [] \<Longrightarrow>
   log_decisions fstr self calls fs (log_path self)
     = Some (open_append fs (log_path self) @ map (written_row fstr) calls)"
proof (induction calls arbitrary: fs)
  case Nil
  then show ?case by simp
next
  case (Cons c calls)
  show ?case
  proof (cases "calls = []")
    case True
    then show ?thesis using log_decision_store [of fstr self "fst c" "snd c" fs] by simp
  next
    case False
    from Cons.IH [OF False, of "log_decision fstr self (fst c) (snd c) fs"]
    show ?thesis using open_append_log_decision [of fstr self "fst c" "snd c" fs] by simp
  qed
qed

lemma open_append_log_decisions:
  "open_append (log_decisions fstr self calls fs) (log_path self)
     = open_append fs (log_path self) @ map (written_row fstr) calls"
proof (cases "calls = []")
  case True
  then show ?thesis by simp
next
  case False
  then show ?thesis by (simp add: log_decisions_store open_append_def)
qed

lemma open_append_init_fresh:
  "open_append (init_csv self (fs(log_path self := None))) (log_path self) = [headers]"
  by (simp add: init_csv_def open_append_def)

lemma get_summary_stats_store:
  "get_summary_stats fparse self fs =
     (if fs (log_path self) = None then Inr (ErrorDict ''No logs found'')
      else if DictReader (open_append fs (log_path self)) = []
      then Inr (ErrorDict ''Log file is empty'')
      else compute_stats fparse (DictReader (open_append fs (log_path self))))"
  by (simp add: get_summary_stats_def open_append_def Let_def split: option.splits)

lemma get_summary_stats_recorded:
  assumes "calls \<noteq> []"
  shows "get_summary_stats fparse self
           (log_decisions fstr self calls (init_csv self (fs(log_path self := None))))
         = compute_stats fparse (map (read_back fstr) calls)"
proof -
  let ?fs = "log_decisions fstr self calls (init_csv self (fs(log_path self := None)))"
  have a: "?fs (log_path self) = Some (headers # map (written_row fstr) calls)"
    using log_decisions_store [OF assms, of fstr self "init_csv self (fs(log_path self := None))"]
    by (simp add: open_append_init_fresh)
  then have b: "open_append ?fs (log_path self) = headers # map (written_row fstr) calls"
    by (simp add: open_append_def)
  show ?thesis
    unfolding get_summary_stats_store b DictReader_headers_recorded
    using a assms by simp
qed

lemma init_csv_exists: "init_csv self fs (log_path self) \<noteq> None"
  by (simp add: init_csv_def)

lemma log_decisions_store_existing:
  assumes "fs (log_path self) \<noteq> None"
  shows "log_decisions fstr self calls fs (log_path self)
           = Some (open_append fs (log_path self) @ map (written_row fstr) calls)"
proof (cases "calls = []")
  case True
  then show ?thesis using assms by (auto simp: open_append_def)
next
  case False
  then show ?thesis by (rule log_decisions_store)
qed

lemma log_entry_tokens:
  "log_prompt_tokens (log_entry d k) = sum_list (map tokens_used (llm_results d))"
  "log_completion_tokens (log_entry d k) = total_tokens d - sum_list (map tokens_used (llm_results d))"
  by (simp_all add: log_entry_def Let_def)

text \<open>
  C2 (token arithmetic). For every decision, the entry built by \<^verbatim>\<open>log_decision\<close> has
  \<open>prompt_tokens\<close> equal to the sum of \<open>tokens_used\<close> over \<open>llm_results\<close> (0 when
  the list is empty) and \<open>completion_tokens\<close> equal to \<open>total_tokens\<close> minus
  \<open>prompt_tokens\<close>; the appended row carries the decimal text of both, which reads
  back as the same integers.
\<close>

theorem token_arithmetic:
  "log_prompt_tokens (log_entry d k) = sum_list (map tokens_used (llm_results d))
   \<and> log_prompt_tokens (log_entry (d\<lparr>llm_results := []\<rparr>) k) = 0
   \<and> log_completion_tokens (log_entry d k) = total_tokens d - log_prompt_tokens (log_entry d k)
   \<and> log_decision fstr self d k fs (log_path self)
       = Some (open_append fs (log_path self) @ [written_row fstr (d, k)])
   \<and> getitem (read_back fstr (d, k)) ''prompt_tokens''
       = Inr (Some (str_int (sum_list (map tokens_used (llm_results d)))))
   \<and> getitem (read_back fstr (d, k)) ''completion_tokens''
       = Inr (Some (str_int (total_tokens d - sum_list (map tokens_used (llm_results d)))))
   \<and> and_then (getitem (read_back fstr (d, k)) ''prompt_tokens'') int_of
       = Inr (sum_list (map tokens_used (llm_results d)))
   \<and> and_then (getitem (read_back fstr (d, k)) ''completion_tokens'') int_of
       = Inr (total_tokens d - sum_list (map tokens_used (llm_results d)))"
  by (simp add: log_entry_tokens log_decision_store read_back_cells int_of_str_int)

theorem token_arithmetic_witness:
  "log_prompt_tokens (log_entry sample_decision 2) = 70
   \<and> log_completion_tokens (log_entry sample_decision 2) = 30
   \<and> getitem (read_back sample_fstr (sample_decision, 2)) ''prompt_tokens'' = Inr (Some ''70'')
   \<and> getitem (read_back sample_fstr (sample_decision, 2)) ''completion_tokens'' = Inr (Some ''30'')"
proof -
  have a: "str_int 70 = ''70''" "str_int 30 = ''30''" by code_simp+
  show ?thesis
    using token_arithmetic [of sample_decision 2 sample_fstr sample_logger Map.empty]
    by (simp add: sample_decision_def a)
qed

lemma sample_latency_parses:
  "sample_fparse (sample_fstr (processing_time_ms sample_decision)) \<noteq> None"
  by (simp add: sample_fparse_def sample_fstr_def sample_decision_def)

text \<open>
  C1 (round trip of one record). A decision with \<open>total_tokens = 100\<close>, two agent
  results using 60 and 10 tokens, no ML prediction and a fairness check that was
  triggered without changing the decision is logged with \<open>key_switches = 2\<close> to a
  store that did not exist before \<^verbatim>\<open>_init_csv\<close>. The store then holds the header and
  one row, whose cells read \<open>prompt_tokens = 70\<close>, \<open>completion_tokens = 30\<close>, an
  empty \<open>ml_confidence_score\<close>, \<open>True\<close> and \<open>False\<close> for the two fairness flags.
  Provided the text of the latency parses as a float again, \<^verbatim>\<open>get_summary_stats\<close>
  returns statistics with one evaluation, 100 tokens in total, one fairness trigger,
  change rate 0 and switch rate 2.
\<close>

theorem round_trip_scenario:
  assumes "total_tokens d = 100"
    and "llm_results d = [\<lparr>tokens_used = 60\<rparr>, \<lparr>tokens_used = 10\<rparr>]"
    and "ml_prediction d = None"
    and "fairness_check d = Some \<lparr>is_triggered = True, decision_changed = False\<rparr>"
    and "fs (log_path self) = None"
    and "fparse (fstr (processing_time_ms d)) \<noteq> None"
  shows "log_decision fstr self d 2 (init_csv self fs) (log_path self)
           = Some [headers, written_row fstr (d, 2)]
         \<and> getitem (read_back fstr (d, 2)) ''prompt_tokens'' = Inr (Some ''70'')
         \<and> getitem (read_back fstr (d, 2)) ''completion_tokens'' = Inr (Some ''30'')
         \<and> getitem (read_back fstr (d, 2)) ''ml_confidence_score'' = Inr (Some [])
         \<and> getitem (read_back fstr (d, 2)) ''is_fairness_triggered'' = Inr (Some ''True'')
         \<and> getitem (read_back fstr (d, 2)) ''fairness_decision_changed'' = Inr (Some ''False'')
         \<and> (\<exists>st. get_summary_stats fparse self (log_decision fstr self d 2 (init_csv self fs))
                    = Inr (StatsDict st)
                \<and> total_evaluations st = 1
                \<and> token_usage_total st = 100
                \<and> fairness_metrics_triggers st = 1
                \<and> fairness_metrics_change_rate st = PyFloat 0
                \<and> resilience_switch_rate st = 2)"
proof -
  have dec: "str_int 70 = ''70''" "str_int 30 = ''30''" by code_simp+
  have fresh: "fs(log_path self := None) = fs" using assms(5) by auto
  have store: "log_decision fstr self d 2 (init_csv self fs) (log_path self)
                 = Some [headers, written_row fstr (d, 2)]"
    using assms(5) by (simp add: log_decision_store init_csv_def open_append_def)
  have cells:
    "getitem (read_back fstr (d, 2)) ''prompt_tokens'' = Inr (Some ''70'')"
    "getitem (read_back fstr (d, 2)) ''completion_tokens'' = Inr (Some ''30'')"
    "getitem (read_back fstr (d, 2)) ''ml_confidence_score'' = Inr (Some [])"
    "getitem (read_back fstr (d, 2)) ''is_fairness_triggered'' = Inr (Some ''True'')"
    "getitem (read_back fstr (d, 2)) ''fairness_decision_changed'' = Inr (Some ''False'')"
    using assms(1-4) by (simp_all add: read_back_cells log_entry_def Let_def dec)
  have "get_summary_stats fparse self (log_decisions fstr self [(d, 2)] (init_csv self (fs(log_path self := None))))
          = compute_stats fparse (map (read_back fstr) [(d, 2)])"
    by (rule get_summary_stats_recorded) simp
  then have eq: "get_summary_stats fparse self (log_decision fstr self d 2 (init_csv self fs))
          = compute_stats fparse (map (read_back fstr) [(d, 2)])"
    by (simp add: fresh)
  obtain st where st: "compute_stats fparse (map (read_back fstr) [(d, 2)]) = Inr (StatsDict st)"
    and a: "total_evaluations st = int (length [(d, 2 :: int)])"
    and b: "token_usage_total st = sum_list (map (\<lambda>c. total_tokens (fst c)) [(d, 2 :: int)])"
    and c: "fairness_metrics_triggers st =
              int (length (filter (\<lambda>c. log_is_fairness_triggered (log_entry (fst c) (snd c))) [(d, 2)]))"
    and e: "fairness_metrics_decision_changes st =
              int (length (filter (\<lambda>c. log_fairness_decision_changed (log_entry (fst c) (snd c))) [(d, 2)]))"
    and f: "resilience_switch_rate st =
              of_int (sum_list (map snd [(d, 2 :: int)])) / of_int (int (length [(d, 2 :: int)]))"
    using compute_stats_recorded [of "[(d, 2)]" fparse fstr] assms(6) by auto
  have c': "fairness_metrics_triggers st = 1"
    using c assms(4) by (simp add: log_entry_def Let_def)
  have e': "fairness_metrics_decision_changes st = 0"
    using e assms(4) by (simp add: log_entry_def Let_def)
  have "fairness_metrics_change_rate st = PyFloat 0"
    using compute_stats_fairness(3) [OF st] c' e' by simp
  then have "get_summary_stats fparse self (log_decision fstr self d 2 (init_csv self fs))
               = Inr (StatsDict st)
             \<and> total_evaluations st = 1 \<and> token_usage_total st = 100
             \<and> fairness_metrics_triggers st = 1
             \<and> fairness_metrics_change_rate st = PyFloat 0
             \<and> resilience_switch_rate st = 2"
    using eq st a b c' f assms(1) by simp
  then show ?thesis using store cells by blast
qed

theorem round_trip_scenario_witness:
  "log_decision sample_fstr sample_logger sample_decision 2 (init_csv sample_logger Map.empty)
       (log_path sample_logger)
     = Some [headers, written_row sample_fstr (sample_decision, 2)]
   \<and> written_row sample_fstr (sample_decision, 2)
       = [''2024-05-01T12:00:00'', ''APP-1'', ''hybrid'', [], [], ''100'', ''70'', ''30'',
          ''1.5'', ''key_used'', ''2'', ''True'', ''False'', ''approve'', ''0.25'']
   \<and> (\<exists>st. get_summary_stats sample_fparse sample_logger
              (log_decision sample_fstr sample_logger sample_decision 2
                 (init_csv sample_logger Map.empty))
            = Inr (StatsDict st)
          \<and> total_evaluations st = 1
          \<and> token_usage_total st = 100
          \<and> fairness_metrics_triggers st = 1
          \<and> fairness_metrics_change_rate st = PyFloat 0
          \<and> resilience_switch_rate st = 2)"
proof -
  have row: "written_row sample_fstr (sample_decision, 2)
       = [''2024-05-01T12:00:00'', ''APP-1'', ''hybrid'', [], [], ''100'', ''70'', ''30'',
          ''1.5'', ''key_used'', ''2'', ''True'', ''False'', ''approve'', ''0.25'']"
    by code_simp
  have h: "total_tokens sample_decision = 100"
    "llm_results sample_decision = [\<lparr>tokens_used = 60\<rparr>, \<lparr>tokens_used = 10\<rparr>]"
    "ml_prediction sample_decision = None"
    "fairness_check sample_decision = Some \<lparr>is_triggered = True, decision_changed = False\<rparr>"
    "Map.empty (log_path sample_logger) = None"
    by (simp_all add: sample_decision_def)
  from round_trip_scenario [where d = sample_decision and fs = Map.empty and self = sample_logger
      and fparse = sample_fparse and fstr = sample_fstr, OF h sample_latency_parses] row
  show ?thesis by blast
qed

text \<open>
  C3 (append-only, one row per call). After any sequence of \<^verbatim>\<open>log_decision\<close> calls on
  an initialised store, the store holds what it held before, unchanged and in place,
  followed by one row per call in call order; on a store that \<^verbatim>\<open>_init_csv\<close> has just
  created this is the header followed by exactly as many rows as there were calls, and
  \<^verbatim>\<open>DictReader\<close> reads back one dictionary per call, in call order.
\<close>

theorem append_only_rows:
  "log_decisions fstr self calls (init_csv self fs) (log_path self)
     = Some (open_append (init_csv self fs) (log_path self) @ map (written_row fstr) calls)
   \<and> log_decisions fstr self calls (init_csv self (fs(log_path self := None))) (log_path self)
       = Some (headers # map (written_row fstr) calls)
   \<and> length (headers # map (written_row fstr) calls) = Suc (length calls)
   \<and> DictReader (headers # map (written_row fstr) calls) = map (read_back fstr) calls
   \<and> log_decision fstr self d k fs (log_path self)
       = Some (open_append fs (log_path self) @ [written_row fstr (d, k)])"
proof -
  have a: "log_decisions fstr self calls (init_csv self fs) (log_path self)
     = Some (open_append (init_csv self fs) (log_path self) @ map (written_row fstr) calls)"
    by (rule log_decisions_store_existing) (rule init_csv_exists)
  have b: "log_decisions fstr self calls (init_csv self (fs(log_path self := None))) (log_path self)
       = Some (headers # map (written_row fstr) calls)"
    using log_decisions_store_existing
      [of "init_csv self (fs(log_path self := None))" self fstr calls] init_csv_exists
    by (simp add: open_append_init_fresh)
  show ?thesis
    using a b by (simp add: DictReader_headers_recorded log_decision_store)
qed

theorem append_only_rows_witness:
  "log_decisions sample_fstr sample_logger
       [(sample_decision, 2), (sample_decision\<lparr>applicant_id := ''APP-0''\<rparr>, 0)]
       (init_csv sample_logger Map.empty) (log_path sample_logger)
     = Some [headers,
             written_row sample_fstr (sample_decision, 2),
             written_row sample_fstr (sample_decision\<lparr>applicant_id := ''APP-0''\<rparr>, 0)]"
  using append_only_rows [of sample_fstr sample_logger
      "[(sample_decision, 2), (sample_decision\<lparr>applicant_id := ''APP-0''\<rparr>, 0)]" Map.empty
      sample_decision 2]
  by (simp add: init_csv_def open_append_def)

text \<open>
  C5 (missing and empty store). \<^verbatim>\<open>get_summary_stats\<close> returns the dictionary
  \<^verbatim>\<open>{"error": "No logs found"}\<close> when no file is at the path, and the different
  dictionary \<^verbatim>\<open>{"error": "Log file is empty"}\<close> when the file holds a header and no
  data row (in particular right after \<^verbatim>\<open>_init_csv\<close> created it). Neither is an
  exception, and neither is a statistics record.
\<close>

theorem missing_and_empty_store:
  "get_summary_stats fparse self (fs(log_path self := None)) = Inr (ErrorDict ''No logs found'')
   \<and> get_summary_stats fparse self (fs(log_path self \<mapsto> [hdr])) = Inr (ErrorDict ''Log file is empty'')
   \<and> get_summary_stats fparse self (init_csv self (fs(log_path self := None)))
       = Inr (ErrorDict ''Log file is empty'')
   \<and> ErrorDict ''No logs found'' \<noteq> ErrorDict ''Log file is empty''
   \<and> ErrorDict ''No logs found'' \<noteq> StatsDict st
   \<and> ErrorDict ''Log file is empty'' \<noteq> StatsDict st"
  by (simp add: get_summary_stats_def DictReader_def init_csv_def)

theorem missing_and_empty_store_witness:
  "get_summary_stats sample_fparse sample_logger Map.empty = Inr (ErrorDict ''No logs found'')
   \<and> get_summary_stats sample_fparse sample_logger (init_csv sample_logger Map.empty)
       = Inr (ErrorDict ''Log file is empty'')"
  using missing_and_empty_store [of sample_fparse sample_logger Map.empty]
  by simp

text \<open>
  C6 (idempotent initialisation). \<^verbatim>\<open>_init_csv\<close> leaves a file system unchanged when a
  file is already at the path, whatever the file holds. Constructing the logger twice
  on a path with no file leaves exactly the header row there: 15 distinct field names
  in the fixed order, and no data row.
\<close>

theorem init_idempotent:
  "init_csv self (fs(log_path self \<mapsto> rows)) = fs(log_path self \<mapsto> rows)
   \<and> init_csv self (init_csv self fs) = init_csv self fs
   \<and> snd (init path (snd (init path fs))) = snd (init path fs)
   \<and> snd (init path (snd (init path (fs(path := None))))) path = Some [headers]
   \<and> DictReader [headers] = []
   \<and> length headers = 15
   \<and> distinct headers
   \<and> headers = [''timestamp'', ''applicant_id'', ''routing_strategy'',
                 ''ml_confidence_score'', ''ml_prediction'',
                 ''total_tokens'', ''prompt_tokens'', ''completion_tokens'',
                 ''latency_ms'', ''active_key_id'', ''key_switches'',
                 ''is_fairness_triggered'', ''fairness_decision_changed'',
                 ''final_decision'', ''risk_score'']"
proof -
  have "distinct headers" by (simp add: headers_def)
  moreover have "length headers = 15" by (simp add: headers_def)
  moreover have "init_csv self (init_csv self fs) = init_csv self fs"
    by (simp add: init_csv_def)
  ultimately show ?thesis
    by (simp add: init_def init_csv_def Let_def DictReader_def) (simp add: headers_def)
qed

theorem init_idempotent_witness:
  "init_csv sample_logger
       ((Map.empty :: filesystem)(log_path sample_logger \<mapsto> [headers, written_row sample_fstr (sample_decision, 2)]))
     = Map.empty(log_path sample_logger \<mapsto> [headers, written_row sample_fstr (sample_decision, 2)])
   \<and> snd (init ''logs/research_logs.csv'' (snd (init ''logs/research_logs.csv'' Map.empty)))
        ''logs/research_logs.csv'' = Some [headers]"
  using init_idempotent [of sample_logger Map.empty
      "[headers, written_row sample_fstr (sample_decision, 2)]" "''logs/research_logs.csv''"]
  by (simp add: init_def init_csv_def)

text \<open>
  C7 (optional fields stay empty). The \<open>ml_confidence_score\<close> and \<open>ml_prediction\<close>
  cells of the written row are the empty text when the decision has no ML prediction,
  and the text of its \<open>confidence_score\<close> and \<open>default_probability\<close> when it has
  one. In the first case the entry holds \<^verbatim>\<open>None\<close> in both fields, \<^verbatim>\<open>csv.writer\<close> is
  given \<^verbatim>\<open>None\<close> for both, and the cell it writes is not the text of any integer.
\<close>

theorem optional_fields_empty:
  "getitem (read_back fstr (d, k)) ''ml_confidence_score''
     = Inr (Some (case ml_prediction d of None \<Rightarrow> [] | Some ml \<Rightarrow> fstr (confidence_score ml)))
   \<and> getitem (read_back fstr (d, k)) ''ml_prediction''
       = Inr (Some (case ml_prediction d of None \<Rightarrow> [] | Some ml \<Rightarrow> fstr (default_probability ml)))
   \<and> log_ml_confidence_score (log_entry d k) = map_option confidence_score (ml_prediction d)
   \<and> log_ml_prediction (log_entry d k) = map_option default_probability (ml_prediction d)
   \<and> row_values (log_entry (d\<lparr>ml_prediction := None\<rparr>) k) ! 3 = PyNone
   \<and> row_values (log_entry (d\<lparr>ml_prediction := None\<rparr>) k) ! 4 = PyNone
   \<and> written_row fstr (d\<lparr>ml_prediction := None\<rparr>, k) ! 3 = []
   \<and> written_row fstr (d\<lparr>ml_prediction := None\<rparr>, k) ! 4 = []
   \<and> py_int [] = None
   \<and> int_of (Some []) = Inl ValueError"
proof -
  have a: "py_int [] = None" by (simp add: py_int_def strip_def)
  have b: "log_ml_confidence_score (log_entry d k) = map_option confidence_score (ml_prediction d)"
    "log_ml_prediction (log_entry d k) = map_option default_probability (ml_prediction d)"
    by (simp_all add: log_entry_def Let_def split: option.splits)
  have c: "row_values (log_entry (d\<lparr>ml_prediction := None\<rparr>) k) ! 3 = PyNone"
    "row_values (log_entry (d\<lparr>ml_prediction := None\<rparr>) k) ! 4 = PyNone"
    by (simp_all add: row_values_def log_entry_def Let_def)
  have e: "written_row fstr (d\<lparr>ml_prediction := None\<rparr>, k) ! 3 = []"
    "written_row fstr (d\<lparr>ml_prediction := None\<rparr>, k) ! 4 = []"
    by (simp_all add: written_row_def row_values_def log_entry_def Let_def)
  have f: "getitem (read_back fstr (d, k)) ''ml_confidence_score''
     = Inr (Some (case ml_prediction d of None \<Rightarrow> [] | Some ml \<Rightarrow> fstr (confidence_score ml)))"
    "getitem (read_back fstr (d, k)) ''ml_prediction''
       = Inr (Some (case ml_prediction d of None \<Rightarrow> [] | Some ml \<Rightarrow> fstr (default_probability ml)))"
    by (simp_all add: read_back_cells b split: option.splits)
  show ?thesis using a b c e f by (simp add: int_of_def)
qed

theorem optional_fields_empty_witness:
  "getitem (read_back sample_fstr (sample_decision, 2)) ''ml_confidence_score'' = Inr (Some [])
   \<and> getitem (read_back sample_fstr (sample_decision, 2)) ''ml_prediction'' = Inr (Some [])
   \<and> getitem (read_back sample_fstr
         (sample_decision\<lparr>ml_prediction := Some \<lparr>confidence_score = 3 / 2, default_probability = 1 / 4\<rparr>\<rparr>, 2))
         ''ml_confidence_score'' = Inr (Some ''1.5'')
   \<and> getitem (read_back sample_fstr
         (sample_decision\<lparr>ml_prediction := Some \<lparr>confidence_score = 3 / 2, default_probability = 1 / 4\<rparr>\<rparr>, 2))
         ''ml_prediction'' = Inr (Some ''0.25'')"
  using optional_fields_empty [of sample_fstr sample_decision 2]
    optional_fields_empty [of sample_fstr
      "sample_decision\<lparr>ml_prediction := Some \<lparr>confidence_score = 3 / 2, default_probability = 1 / 4\<rparr>\<rparr>" 2]
  by (simp add: sample_decision_def sample_fstr_def)

text \<open>
  C8 (key id placeholder). The \<open>active_key_id\<close> cell of the written row is the text
  \<open>key_used\<close> when the decision has at least one LLM result and \<open>ml_only\<close> when it
  has none; \<^verbatim>\<open>_extract_key_id\<close> has no other value.
\<close>

theorem key_id_placeholder:
  "extract_key_id d = (if llm_results d = [] then ''ml_only'' else ''key_used'')
   \<and> log_active_key_id (log_entry d k) = extract_key_id d
   \<and> getitem (read_back fstr (d, k)) ''active_key_id'' = Inr (Some (extract_key_id d))
   \<and> written_row fstr (d, k) ! 9 = extract_key_id d
   \<and> extract_key_id d \<in> {''key_used'', ''ml_only''}"
  by (simp add: extract_key_id_def read_back_cells log_entry_def Let_def
        written_row_def row_values_def)

theorem key_id_placeholder_witness:
  "getitem (read_back sample_fstr (sample_decision, 2)) ''active_key_id'' = Inr (Some ''key_used'')
   \<and> getitem (read_back sample_fstr (sample_decision\<lparr>llm_results := []\<rparr>, 0)) ''active_key_id''
       = Inr (Some ''ml_only'')"
  using key_id_placeholder [of sample_decision 2 sample_fstr]
    key_id_placeholder [of "sample_decision\<lparr>llm_results := []\<rparr>" 0 sample_fstr]
  by (simp add: sample_decision_def)

text \<open>
  C9 (the summary depends on the store alone). \<^verbatim>\<open>get_summary_stats\<close> reads nothing
  but the file at the logger's path: two loggers and two file systems that agree on
  what is stored at the respective path get the same result, whether statistics, an
  error dictionary or an exception. The function returns a result only: it leaves the
  logger and the file system as they are, so a second call sees the same store.
\<close>

theorem summary_depends_on_store_only:
  assumes "fs1 (log_path self1) = fs2 (log_path self2)"
  shows "get_summary_stats fparse self1 fs1 = get_summary_stats fparse self2 fs2"
  using assms by (simp add: get_summary_stats_def)

theorem summary_depends_on_store_only_witness:
  "get_summary_stats sample_fparse sample_logger
       (log_decision sample_fstr sample_logger sample_decision 2 (init_csv sample_logger Map.empty))
     = get_summary_stats sample_fparse \<lparr>log_path = ''copy.csv''\<rparr>
         [''copy.csv'' \<mapsto> [headers, written_row sample_fstr (sample_decision, 2)],
          ''other.csv'' \<mapsto> [headers]]"
proof -
  have "log_decision sample_fstr sample_logger sample_decision 2
          (init_csv sample_logger Map.empty) (log_path sample_logger)
        = [''copy.csv'' \<mapsto> [headers, written_row sample_fstr (sample_decision, 2)],
           ''other.csv'' \<mapsto> [headers]] (log_path \<lparr>log_path = ''copy.csv''\<rparr>)"
    by (simp add: log_decision_store init_csv_def open_append_def)
  then show ?thesis by (rule summary_depends_on_store_only)
qed

lemma get_summary_stats_fairness:
  assumes "get_summary_stats fparse self fs = Inr (StatsDict st)"
  shows "compute_stats fparse (DictReader (open_append fs (log_path self))) = Inr (StatsDict st)"
  using assms by (simp add: get_summary_stats_store split: if_splits)

lemma get_summary_stats_no_zde: "get_summary_stats fparse self fs \<noteq> Inl ZeroDivisionError"
  by (simp add: get_summary_stats_store compute_stats_no_zde)

lemma sample_calls_stats:
  "\<exists>st. get_summary_stats sample_fparse sample_logger
           (log_decisions sample_fstr sample_logger sample_calls (init_csv sample_logger no_files))
         = Inr (StatsDict st)
       \<and> fairness_metrics_triggers st = 1
       \<and> fairness_metrics_decision_changes st = 2
       \<and> fairness_metrics_change_rate st = PyFloat 2"
proof -
  have ne: "sample_calls \<noteq> []" by (simp add: sample_calls_def)
  have lat: "\<forall>c \<in> set sample_calls. sample_fparse (sample_fstr (processing_time_ms (fst c))) \<noteq> None"
    using sample_latency_parses by (simp add: sample_calls_def changed_untriggered_def)
  have fresh: "no_files(log_path sample_logger := None) = no_files"
    by (simp add: no_files_def)
  have eq: "get_summary_stats sample_fparse sample_logger
              (log_decisions sample_fstr sample_logger sample_calls (init_csv sample_logger no_files))
            = compute_stats sample_fparse (map (read_back sample_fstr) sample_calls)"
    using get_summary_stats_recorded [OF ne, of sample_fparse sample_logger sample_fstr no_files]
    by (simp add: fresh)
  obtain st where st: "compute_stats sample_fparse (map (read_back sample_fstr) sample_calls)
                         = Inr (StatsDict st)"
    and t: "fairness_metrics_triggers st =
              int (length (filter (\<lambda>c. log_is_fairness_triggered (log_entry (fst c) (snd c))) sample_calls))"
    and c: "fairness_metrics_decision_changes st =
              int (length (filter (\<lambda>c. log_fairness_decision_changed (log_entry (fst c) (snd c))) sample_calls))"
    using compute_stats_recorded [OF ne lat] by auto
  have t': "fairness_metrics_triggers st = 1"
    using t by (simp add: sample_calls_def changed_untriggered_def sample_decision_def
                  log_entry_def Let_def)
  have c': "fairness_metrics_decision_changes st = 2"
    using c by (simp add: sample_calls_def changed_untriggered_def sample_decision_def
                  log_entry_def Let_def)
  have "fairness_metrics_change_rate st = PyFloat 2"
    using compute_stats_fairness(3) [OF st] t' c' by simp
  then show ?thesis using eq st t' c' by auto
qed

lemma recorded_flag_cell:
  "(getitem (read_back fstr c) ''is_fairness_triggered'' = Inr (Some ''True''))
     = log_is_fairness_triggered (log_entry (fst c) (snd c))"
  by (simp add: read_back_cells)

text \<open>
  C4 (guard against division by zero). \<^verbatim>\<open>get_summary_stats\<close> never raises
  \<^verbatim>\<open>ZeroDivisionError\<close>, whatever the store. Whenever it returns a statistics
  record, \<open>triggers\<close> counts the data rows whose \<open>is_fairness_triggered\<close> cell is the
  text \<open>True\<close>, and \<open>change_rate\<close> is the integer 0 when that count is 0 and
  \<open>decision_changes / triggers\<close> when it is positive. On a store the recorder wrote
  from at least one decision, none of them triggered, with latencies whose text parses
  as a float, it does return a statistics record, with \<open>change_rate = 0\<close>.
\<close>

theorem change_rate_guard:
  "get_summary_stats fparse self fs \<noteq> Inl ZeroDivisionError
   \<and> (get_summary_stats fparse self fs = Inr (StatsDict st) \<longrightarrow>
        fairness_metrics_triggers st =
          int (length (filter (\<lambda>r. getitem r ''is_fairness_triggered'' = Inr (Some ''True''))
                         (DictReader (open_append fs (log_path self)))))
        \<and> fairness_metrics_change_rate st =
            (if 0 < fairness_metrics_triggers st
             then PyFloat (of_int (fairness_metrics_decision_changes st)
                           / of_int (fairness_metrics_triggers st))
             else PyInt 0))
   \<and> (calls \<noteq> [] \<longrightarrow>
        (\<forall>c \<in> set calls. fparse (fstr (processing_time_ms (fst c))) \<noteq> None) \<longrightarrow>
        (\<forall>c \<in> set calls. getitem (read_back fstr c) ''is_fairness_triggered'' \<noteq> Inr (Some ''True'')) \<longrightarrow>
        (\<exists>st'. get_summary_stats fparse self
                  (log_decisions fstr self calls (init_csv self (fs(log_path self := None))))
                = Inr (StatsDict st')
              \<and> fairness_metrics_triggers st' = 0
              \<and> fairness_metrics_change_rate st' = PyInt 0))"
proof (intro conjI impI)
  show "get_summary_stats fparse self fs \<noteq> Inl ZeroDivisionError"
    by (rule get_summary_stats_no_zde)
next
  assume "get_summary_stats fparse self fs = Inr (StatsDict st)"
  then have cs: "compute_stats fparse (DictReader (open_append fs (log_path self))) = Inr (StatsDict st)"
    by (rule get_summary_stats_fairness)
  show "fairness_metrics_triggers st =
          int (length (filter (\<lambda>r. getitem r ''is_fairness_triggered'' = Inr (Some ''True''))
                         (DictReader (open_append fs (log_path self)))))"
    by (rule compute_stats_fairness(1) [OF cs])
  show "fairness_metrics_change_rate st =
            (if 0 < fairness_metrics_triggers st
             then PyFloat (of_int (fairness_metrics_decision_changes st)
                           / of_int (fairness_metrics_triggers st))
             else PyInt 0)"
    by (rule compute_stats_fairness(3) [OF cs])
next
  assume ne: "calls \<noteq> []"
    and lat: "\<forall>c \<in> set calls. fparse (fstr (processing_time_ms (fst c))) \<noteq> None"
    and no: "\<forall>c \<in> set calls. getitem (read_back fstr c) ''is_fairness_triggered'' \<noteq> Inr (Some ''True'')"
  obtain st' where st': "compute_stats fparse (map (read_back fstr) calls) = Inr (StatsDict st')"
    and t: "fairness_metrics_triggers st' =
              int (length (filter (\<lambda>c. log_is_fairness_triggered (log_entry (fst c) (snd c))) calls))"
    using compute_stats_recorded [OF ne lat] by auto
  have "filter (\<lambda>c. log_is_fairness_triggered (log_entry (fst c) (snd c))) calls = []"
    using no by (simp add: recorded_flag_cell filter_empty_conv)
  then have t': "fairness_metrics_triggers st' = 0" using t by simp
  then have "fairness_metrics_change_rate st' = PyInt 0"
    using compute_stats_fairness(3) [OF st'] by simp
  then show "\<exists>st'. get_summary_stats fparse self
                  (log_decisions fstr self calls (init_csv self (fs(log_path self := None))))
                = Inr (StatsDict st')
              \<and> fairness_metrics_triggers st' = 0
              \<and> fairness_metrics_change_rate st' = PyInt 0"
    using get_summary_stats_recorded [OF ne, of fparse self fstr fs] st' t' by auto
qed

text \<open>
  A store that holds the header only has no triggered row either, but there the result
  is the error dictionary of the empty log, which has no \<open>change_rate\<close>: the guard
  is reached only when there is a data row.
\<close>

theorem change_rate_guard_counterexample:
  "DictReader (open_append (init_csv sample_logger no_files) (log_path sample_logger)) = []
   \<and> get_summary_stats sample_fparse sample_logger (init_csv sample_logger no_files)
       = Inr (ErrorDict ''Log file is empty'')"
  by (simp add: get_summary_stats_def init_csv_def no_files_def open_append_def DictReader_def)

theorem change_rate_guard_witness:
  "get_summary_stats sample_fparse sample_logger
       (log_decisions sample_fstr sample_logger sample_calls (init_csv sample_logger no_files))
     \<noteq> Inl ZeroDivisionError
   \<and> (\<exists>st. get_summary_stats sample_fparse sample_logger
              (log_decisions sample_fstr sample_logger sample_calls (init_csv sample_logger no_files))
            = Inr (StatsDict st)
          \<and> fairness_metrics_triggers st = 1
          \<and> fairness_metrics_change_rate st = PyFloat 2)
   \<and> (\<exists>st'. get_summary_stats sample_fparse sample_logger
               (log_decisions sample_fstr sample_logger [(changed_untriggered, 0)]
                  (init_csv sample_logger no_files))
             = Inr (StatsDict st')
           \<and> fairness_metrics_triggers st' = 0
           \<and> fairness_metrics_change_rate st' = PyInt 0)"
proof -
  let ?fs = "log_decisions sample_fstr sample_logger sample_calls (init_csv sample_logger no_files)"
  note g = change_rate_guard [where fparse = sample_fparse and self = sample_logger
      and fstr = sample_fstr and calls = "[(changed_untriggered, 0)]"]
  note g1 = g [where fs = ?fs]
  note g2 = g [where fs = no_files]
  obtain st where st: "get_summary_stats sample_fparse sample_logger ?fs = Inr (StatsDict st)"
    and ch: "fairness_metrics_decision_changes st = 2"
    using sample_calls_stats by auto
  have a: "get_summary_stats sample_fparse sample_logger ?fs \<noteq> Inl ZeroDivisionError"
    using g1 by simp
  have rows: "DictReader (open_append ?fs (log_path sample_logger))
                = map (read_back sample_fstr) sample_calls"
  proof -
    have "open_append (init_csv sample_logger no_files) (log_path sample_logger) = [headers]"
      by (simp add: init_csv_def no_files_def open_append_def)
    then show ?thesis
      by (simp add: open_append_log_decisions DictReader_headers_recorded)
  qed
  have g1': "fairness_metrics_triggers st =
          int (length (filter (\<lambda>r. getitem r ''is_fairness_triggered'' = Inr (Some ''True''))
                         (DictReader (open_append ?fs (log_path sample_logger)))))
        \<and> fairness_metrics_change_rate st =
            (if 0 < fairness_metrics_triggers st
             then PyFloat (of_int (fairness_metrics_decision_changes st)
                           / of_int (fairness_metrics_triggers st))
             else PyInt 0)"
    using g1 [where st = st] st by blast
  have t: "fairness_metrics_triggers st = 1"
    using g1' unfolding rows
    by (simp add: filter_map comp_def recorded_flag_cell sample_calls_def
          changed_untriggered_def sample_decision_def log_entry_def Let_def)
  have r: "fairness_metrics_change_rate st = PyFloat 2"
    using g1' t ch by simp
  have lat: "sample_fparse (sample_fstr (processing_time_ms changed_untriggered)) \<noteq> None"
    using sample_latency_parses by (simp add: changed_untriggered_def)
  have flag: "getitem (read_back sample_fstr (changed_untriggered, 0)) ''is_fairness_triggered''
                \<noteq> Inr (Some ''True'')"
    by (simp add: recorded_flag_cell changed_untriggered_def log_entry_def Let_def)
  have fresh: "no_files(log_path sample_logger := None) = no_files"
    by (simp add: no_files_def)
  have b: "\<exists>st'. get_summary_stats sample_fparse sample_logger
               (log_decisions sample_fstr sample_logger [(changed_untriggered, 0)]
                  (init_csv sample_logger no_files))
             = Inr (StatsDict st')
           \<and> fairness_metrics_triggers st' = 0
           \<and> fairness_metrics_change_rate st' = PyInt 0"
    using g2 lat flag by (simp add: fresh)
  show ?thesis using a st t r b by blast
qed

text \<open>
  C10 (decision changes are counted whether or not the row was triggered). Whenever
  \<^verbatim>\<open>get_summary_stats\<close> returns a statistics record, \<open>decision_changes\<close> is the
  number of data rows whose \<open>fairness_decision_changed\<close> cell is the text \<open>True\<close>;
  the \<open>is_fairness_triggered\<close> cell plays no part in the count. So the store written
  from one decision that was triggered but not changed and two that were changed but
  not triggered has one trigger, two decision changes and the change rate 2, which is
  greater than 1.
\<close>

theorem decision_changes_ignore_trigger:
  "(get_summary_stats fparse self fs = Inr (StatsDict st) \<longrightarrow>
      fairness_metrics_decision_changes st =
        int (length (filter (\<lambda>r. getitem r ''fairness_decision_changed'' = Inr (Some ''True''))
                       (DictReader (open_append fs (log_path self))))))
   \<and> getitem (read_back sample_fstr (changed_untriggered, 0)) ''is_fairness_triggered''
       = Inr (Some ''False'')
   \<and> getitem (read_back sample_fstr (changed_untriggered, 0)) ''fairness_decision_changed''
       = Inr (Some ''True'')
   \<and> (\<exists>st'. get_summary_stats sample_fparse sample_logger
               (log_decisions sample_fstr sample_logger sample_calls
                  (init_csv sample_logger no_files))
             = Inr (StatsDict st')
           \<and> fairness_metrics_triggers st' = 1
           \<and> fairness_metrics_decision_changes st' = 2
           \<and> fairness_metrics_change_rate st' = PyFloat 2)
   \<and> (1 :: rat) < 2"
proof -
  have a: "get_summary_stats fparse self fs = Inr (StatsDict st) \<longrightarrow>
      fairness_metrics_decision_changes st =
        int (length (filter (\<lambda>r. getitem r ''fairness_decision_changed'' = Inr (Some ''True''))
                       (DictReader (open_append fs (log_path self)))))"
  proof
    assume "get_summary_stats fparse self fs = Inr (StatsDict st)"
    then have "compute_stats fparse (DictReader (open_append fs (log_path self))) = Inr (StatsDict st)"
      by (rule get_summary_stats_fairness)
    then show "fairness_metrics_decision_changes st =
        int (length (filter (\<lambda>r. getitem r ''fairness_decision_changed'' = Inr (Some ''True''))
                       (DictReader (open_append fs (log_path self)))))"
      by (rule compute_stats_fairness(2))
  qed
  have b: "getitem (read_back sample_fstr (changed_untriggered, 0)) ''is_fairness_triggered''
       = Inr (Some ''False'')"
    "getitem (read_back sample_fstr (changed_untriggered, 0)) ''fairness_decision_changed''
       = Inr (Some ''True'')"
    by (simp_all add: read_back_cells changed_untriggered_def log_entry_def Let_def)
  show ?thesis using a b sample_calls_stats by simp
qed

theorem decision_changes_ignore_trigger_witness:
  "\<exists>st. get_summary_stats sample_fparse sample_logger
          (log_decisions sample_fstr sample_logger sample_calls (init_csv sample_logger no_files))
        = Inr (StatsDict st)
      \<and> fairness_metrics_triggers st = 1
      \<and> fairness_metrics_decision_changes st = 2
      \<and> int (length (filter (\<lambda>r. getitem r ''fairness_decision_changed'' = Inr (Some ''True''))
                (DictReader (open_append
                   (log_decisions sample_fstr sample_logger sample_calls
                      (init_csv sample_logger no_files))
                   (log_path sample_logger))))) = 2"
proof -
  let ?fs = "log_decisions sample_fstr sample_logger sample_calls (init_csv sample_logger no_files)"
  obtain st where st: "get_summary_stats sample_fparse sample_logger ?fs = Inr (StatsDict st)"
    and t: "fairness_metrics_triggers st = 1"
    and c: "fairness_metrics_decision_changes st = 2"
    using sample_calls_stats by auto
  have "fairness_metrics_decision_changes st =
        int (length (filter (\<lambda>r. getitem r ''fairness_decision_changed'' = Inr (Some ''True''))
                       (DictReader (open_append ?fs (log_path sample_logger)))))"
    using decision_changes_ignore_trigger
      [where fparse = sample_fparse and self = sample_logger and fs = ?fs and st = st] st
    by blast
  then show ?thesis using st t c by auto
qed

end
